theory Spec2Isabelle
  imports Complex_Main
begin

section \<open>JavaScript values shared by the embedded modules\<close>

text \<open>
  A thrown value. \<open>JsError m\<close> is an instance of \<open>Error\<close> with message \<open>m\<close>;
  \<open>JsValue s\<close> is any other thrown value, kept as what \<open>String(value)\<close> gives.
\<close>

datatype js_thrown = JsError string | JsValue string

text \<open>
  Truthiness of an optional string (\<open>string | null | undefined\<close>): absent values and
  the empty string are falsy.
\<close>

definition truthy :: "string option \<Rightarrow> bool" where
  "truthy v = (case v of None \<Rightarrow> False | Some s \<Rightarrow> s \<noteq> [])"

section \<open>manager/VoiceForwarder.ts\<close>

text \<open>
  Modelled from the spec: the Player class (player/Player.ts) is not among the sources.
  The record holds the two fields VoiceForwarder reads, \<open>guildId\<close> and
  \<open>voiceChannelId\<close>, and the assigned node of the spec's session record. Its methods
  \<open>updateVoiceState\<close> and \<open>disconnect\<close> are observed as actions and taken to return.
\<close>

record Player =
  player_guildId :: string
  voiceChannelId :: string
  node :: string

record VoiceConnection =
  guildId :: string
  channelId :: "string option"
  sessionId :: "string option"
  token :: "string option"
  endpoint :: "string option"

text \<open>
  Modelled from the spec: types/lavalink.ts is not among the sources. \<open>VoiceState\<close> is
  the object literal built by \<open>forwardVoiceState\<close> (token, endpoint, sessionId); the
  packet payloads hold the fields the handlers destructure, with the types that
  \<open>VoiceConnection\<close> gives the fields they are assigned to.
\<close>

datatype VoiceState = VoiceState string string string

record VoiceServerData =
  d_guild_id :: string
  d_token :: string
  d_endpoint :: string

record VoiceStateData =
  s_guild_id :: string
  s_user_id :: string
  s_session_id :: string
  s_channel_id :: "string option"

datatype DiscordVoiceEvent =
    VOICE_SERVER_UPDATE VoiceServerData
  | VOICE_STATE_UPDATE VoiceStateData

text \<open>
  What the forwarder does to its collaborators, in program order: events emitted on the
  event emitter and calls made on the player.
\<close>

datatype action =
    Debug string
  | PlayerMove Player string string
  | UpdateVoiceState Player VoiceState
  | Disconnect Player

record VoiceForwarder =
  voiceStates :: "string \<rightharpoonup> VoiceConnection"
  clientId :: string

text \<open>
  Every handler returns the forwarder after the call, the actions performed, and the
  thrown value if the call threw. Mutations made before a throw persist.
\<close>

type_synonym outcome = "VoiceForwarder \<times> action list \<times> js_thrown option"

definition forwardVoiceState :: "Player \<Rightarrow> VoiceConnection \<Rightarrow> action list \<times> js_thrown option" where
  "forwardVoiceState p voiceState =
     (case (sessionId voiceState, token voiceState, endpoint voiceState) of
        (Some s, Some t, Some e) \<Rightarrow>
          if s = [] \<or> t = [] \<or> e = [] then ([], Some (JsError ''Incomplete voice state''))
          else ([UpdateVoiceState p (VoiceState t e s),
                 Debug (''Forwarded voice state to Lavalink for guild '' @ player_guildId p)],
                None)
      | _ \<Rightarrow> ([], Some (JsError ''Incomplete voice state'')))"

definition handleVoiceServerUpdate ::
  "VoiceForwarder \<Rightarrow> VoiceServerData \<Rightarrow> Player option \<Rightarrow> outcome" where
  "handleVoiceServerUpdate fw d player =
     (let g = d_guild_id d;
          dbg = Debug (''Voice server update for guild '' @ g);
          found = (case voiceStates fw g of
                     None \<Rightarrow> \<lparr>guildId = g, channelId = None, sessionId = None,
                               token = None, endpoint = None\<rparr>
                   | Some v \<Rightarrow> v);
          voiceState = found\<lparr>token := Some (d_token d), endpoint := Some (d_endpoint d)\<rparr>;
          fw' = fw\<lparr>voiceStates := (voiceStates fw)(g \<mapsto> voiceState)\<rparr>
      in case player of
           Some p \<Rightarrow>
             if truthy (sessionId voiceState)
             then (let (acts, thrown) = forwardVoiceState p voiceState
                   in (fw', dbg # acts, thrown))
             else (fw', [dbg], None)
         | None \<Rightarrow> (fw', [dbg], None))"

definition handleVoiceStateUpdate ::
  "VoiceForwarder \<Rightarrow> VoiceStateData \<Rightarrow> Player option \<Rightarrow> outcome" where
  "handleVoiceStateUpdate fw d player =
     (if s_user_id d \<noteq> clientId fw then (fw, [], None)
      else
        let g = s_guild_id d;
            dbg = Debug (''Voice state update for guild '' @ g);
            found = (case voiceStates fw g of
                       None \<Rightarrow> \<lparr>guildId = g, channelId = s_channel_id d, sessionId = None,
                                 token = None, endpoint = None\<rparr>
                     | Some v \<Rightarrow> v);
            voiceState = found\<lparr>sessionId := Some (s_session_id d),
                               channelId := s_channel_id d\<rparr>;
            fw' = fw\<lparr>voiceStates := (voiceStates fw)(g \<mapsto> voiceState)\<rparr>;
            left = (fw\<lparr>voiceStates := (voiceStates fw)(g := None)\<rparr>,
                    dbg # (case player of Some p \<Rightarrow> [Disconnect p] | None \<Rightarrow> []),
                    None)
        in case s_channel_id d of
             None \<Rightarrow> left
           | Some channel_id \<Rightarrow>
               if channel_id = [] then left
               else
                 (case player of
                    Some p \<Rightarrow>
                      let move = (if voiceChannelId p \<noteq> channel_id
                                  then [PlayerMove p (voiceChannelId p) channel_id]
                                  else [])
                      in if truthy (token voiceState) \<and> truthy (endpoint voiceState)
                         then (let (acts, thrown) = forwardVoiceState p voiceState
                               in (fw', dbg # move @ acts, thrown))
                         else (fw', dbg # move, None)
                  | None \<Rightarrow> (fw', [dbg], None)))"

fun handleVoiceUpdate :: "VoiceForwarder \<Rightarrow> DiscordVoiceEvent \<Rightarrow> Player option \<Rightarrow> outcome" where
  "handleVoiceUpdate fw (VOICE_SERVER_UPDATE d) player = handleVoiceServerUpdate fw d player"
| "handleVoiceUpdate fw (VOICE_STATE_UPDATE d) player = handleVoiceStateUpdate fw d player"

text \<open>
  A caller delivering packets one after the other, each with the player it looked up for
  the packet. A throw does not stop the caller: the actions of all calls are collected,
  and so are the thrown values.
\<close>

fun handleVoiceUpdates ::
  "VoiceForwarder \<Rightarrow> (DiscordVoiceEvent \<times> Player option) list
     \<Rightarrow> VoiceForwarder \<times> action list \<times> js_thrown list" where
  "handleVoiceUpdates fw [] = (fw, [], [])"
| "handleVoiceUpdates fw ((ev, player) # rest) =
     (case handleVoiceUpdate fw ev player of
        (fw', acts, thrown) \<Rightarrow>
          (case handleVoiceUpdates fw' rest of
             (fw'', acts', thrown') \<Rightarrow>
               (fw'', acts @ acts',
                (case thrown of None \<Rightarrow> [] | Some e \<Rightarrow> [e]) @ thrown')))"

text \<open>The credentials handed to \<open>player.updateVoiceState\<close>, in order.\<close>

fun forwards :: "action list \<Rightarrow> VoiceState list" where
  "forwards [] = []"
| "forwards (UpdateVoiceState p v # as) = v # forwards as"
| "forwards (a # as) = forwards as"

fun isPlayerMove :: "action \<Rightarrow> bool" where
  "isPlayerMove (PlayerMove p old new) = True"
| "isPlayerMove a = False"


text \<open>Projections of an outcome: the forwarder afterwards, the actions, what was thrown.\<close>

definition forwarder_after :: "VoiceForwarder \<times> 'a \<times> 'b \<Rightarrow> VoiceForwarder" where
  "forwarder_after r = fst r"

definition performed :: "'s \<times> action list \<times> 'b \<Rightarrow> action list" where
  "performed r = fst (snd r)"

definition thrown_by :: "'s \<times> 'a \<times> 'b \<Rightarrow> 'b" where
  "thrown_by r = snd (snd r)"

text \<open>The guild a packet is about, and whether the handlers process it at all.\<close>

fun event_guild :: "DiscordVoiceEvent \<Rightarrow> string" where
  "event_guild (VOICE_SERVER_UPDATE d) = d_guild_id d"
| "event_guild (VOICE_STATE_UPDATE d) = s_guild_id d"

fun processed :: "VoiceForwarder \<Rightarrow> DiscordVoiceEvent \<Rightarrow> bool" where
  "processed fw (VOICE_SERVER_UPDATE d) = True"
| "processed fw (VOICE_STATE_UPDATE d) = (s_user_id d = clientId fw)"

text \<open>
  The complete credential of a stored entry: present when token, endpoint and sessionId
  are all non-empty strings. \<open>stored_credential\<close> reads it from the forwarder's map.
\<close>

definition credential :: "VoiceConnection \<Rightarrow> VoiceState option" where
  "credential v =
     (case (token v, endpoint v, sessionId v) of
        (Some t, Some e, Some s) \<Rightarrow>
          if t \<noteq> [] \<and> e \<noteq> [] \<and> s \<noteq> [] then Some (VoiceState t e s) else None
      | _ \<Rightarrow> None)"

definition stored_credential :: "VoiceForwarder \<Rightarrow> string \<Rightarrow> VoiceState list" where
  "stored_credential fw g =
     (case voiceStates fw g of
        None \<Rightarrow> []
      | Some v \<Rightarrow> (case credential v of None \<Rightarrow> [] | Some c \<Rightarrow> [c]))"

section \<open>utils/http.ts: HttpClient\<close>

text \<open>
  A promise as the awaiting code sees it: it stays pending for ever, rejects with a
  thrown value, or resolves.
\<close>

datatype 'a promise = Pending | Rejected js_thrown | Resolved 'a

datatype http_method = GET | POST | PATCH | DELETE

text \<open>\<open>RequestOptions\<close> has exactly these four fields; \<open>body\<close> is of type \<open>any\<close>.\<close>

record 'b RequestOptions =
  req_method :: http_method
  req_endpoint :: string
  req_headers :: "(string \<rightharpoonup> string) option"
  req_body :: "'b option"

record HttpClient =
  baseUrl :: string
  headers :: "string \<rightharpoonup> string"

text \<open>The arguments \<open>request\<close> passes to \<open>fetch\<close>, and the parts of the response it reads.\<close>

record FetchInit =
  fetch_url :: string
  fetch_method :: http_method
  fetch_headers :: "string \<rightharpoonup> string"
  fetch_body :: "string option"

record 'j Response =
  resp_ok :: bool
  resp_status :: nat
  resp_statusText :: string
  resp_content_length :: "string option"
  resp_text :: "string promise"
  resp_json :: "'j promise"

datatype 'j reply = EmptyObject | Data 'j

text \<open>The decimal digits of a number, as a template literal prints it.\<close>

fun decimal :: "nat \<Rightarrow> string" where
  "decimal n = (if n < 10 then [char_of (48 + n)]
                else decimal (n div 10) @ [char_of (48 + n mod 10)])"

declare decimal.simps [simp del]

text \<open>The \<open>catch\<close> block of \<open>request\<close>: an \<open>Error\<close> is wrapped, anything else rethrown.\<close>

definition requestFailed :: "js_thrown \<Rightarrow> js_thrown" where
  "requestFailed error =
     (case error of
        JsError message \<Rightarrow> JsError (''Request failed: '' @ message)
      | JsValue s \<Rightarrow> JsValue s)"

text \<open>
  \<open>request\<close>. The environment is given as parameters: truthiness and \<open>JSON.stringify\<close>
  on body values, and \<open>fetch\<close>. The result is \<open>None\<close> when the returned promise never
  settles, \<open>Some (Inl e)\<close> when it rejects with \<open>e\<close>, \<open>Some (Inr v)\<close> when it resolves.
\<close>

definition request ::
  "('b \<Rightarrow> bool) \<Rightarrow> ('b \<Rightarrow> string) \<Rightarrow> (FetchInit \<Rightarrow> 'j Response promise)
     \<Rightarrow> HttpClient \<Rightarrow> 'b RequestOptions \<Rightarrow> (js_thrown + 'j reply) option" where
  "request js_truthy JSON_stringify fetch client opts =
     (let url = baseUrl client @ req_endpoint opts;
          hdrs = headers client ++ (case req_headers opts of None \<Rightarrow> Map.empty | Some h \<Rightarrow> h);
          body = (case req_body opts of
                    None \<Rightarrow> None
                  | Some b \<Rightarrow> if js_truthy b then Some (JSON_stringify b) else None)
      in case fetch \<lparr>fetch_url = url, fetch_method = req_method opts,
                     fetch_headers = hdrs, fetch_body = body\<rparr> of
           Pending \<Rightarrow> None
         | Rejected error \<Rightarrow> Some (Inl (requestFailed error))
         | Resolved response \<Rightarrow>
             if \<not> resp_ok response
             then (case resp_text response of
                     Pending \<Rightarrow> None
                   | Rejected error \<Rightarrow> Some (Inl (requestFailed error))
                   | Resolved errorText \<Rightarrow>
                       Some (Inl (requestFailed (JsError
                         (''HTTP '' @ decimal (resp_status response) @ '': ''
                            @ resp_statusText response @ '' - '' @ errorText)))))
             else if resp_status response = 204 \<or> resp_content_length response = Some ''0''
             then Some (Inr EmptyObject)
             else (case resp_json response of
                     Pending \<Rightarrow> None
                   | Rejected error \<Rightarrow> Some (Inl (requestFailed error))
                   | Resolved data \<Rightarrow> Some (Inr (Data data))))"

section \<open>JavaScript numbers\<close>

text \<open>
  A number is an IEEE 754 double: a finite double, given by its real value (the sign of
  zero is not kept), one of the two infinities, or NaN. An arithmetic operation on finite
  numbers takes the exact real result and rounds it. The rounding of a real to the
  nearest double, with the exponent unbounded above, is the parameter \<open>fl\<close> of every
  operation that rounds; a rounded value beyond \<open>Number.MAX_VALUE\<close> overflows to an
  infinity. Comparisons with NaN are false, and \<open>Math.min\<close>, \<open>Math.max\<close> and
  \<open>Math.floor\<close> pass NaN on.
\<close>

datatype number = Num real | PosInf | NegInf | NaN

definition MAX_VALUE :: real where
  "MAX_VALUE = (2 ^ 53 - 1) * 2 ^ 971"

definition js_round :: "(real \<Rightarrow> real) \<Rightarrow> real \<Rightarrow> number" where
  "js_round fl x =
     (if fl x > MAX_VALUE then PosInf
      else if fl x < - MAX_VALUE then NegInf
      else Num (fl x))"

fun js_neg :: "number \<Rightarrow> number" where
  "js_neg (Num x) = Num (- x)"
| "js_neg PosInf = NegInf"
| "js_neg NegInf = PosInf"
| "js_neg NaN = NaN"

fun js_mul :: "(real \<Rightarrow> real) \<Rightarrow> number \<Rightarrow> number \<Rightarrow> number" where
  "js_mul fl NaN b = NaN"
| "js_mul fl a NaN = NaN"
| "js_mul fl (Num x) (Num y) = js_round fl (x * y)"
| "js_mul fl (Num x) PosInf = (if x = 0 then NaN else if 0 < x then PosInf else NegInf)"
| "js_mul fl (Num x) NegInf = (if x = 0 then NaN else if 0 < x then NegInf else PosInf)"
| "js_mul fl PosInf (Num y) = (if y = 0 then NaN else if 0 < y then PosInf else NegInf)"
| "js_mul fl NegInf (Num y) = (if y = 0 then NaN else if 0 < y then NegInf else PosInf)"
| "js_mul fl PosInf PosInf = PosInf"
| "js_mul fl PosInf NegInf = NegInf"
| "js_mul fl NegInf PosInf = NegInf"
| "js_mul fl NegInf NegInf = PosInf"

fun js_add :: "(real \<Rightarrow> real) \<Rightarrow> number \<Rightarrow> number \<Rightarrow> number" where
  "js_add fl NaN b = NaN"
| "js_add fl a NaN = NaN"
| "js_add fl (Num x) (Num y) = js_round fl (x + y)"
| "js_add fl PosInf NegInf = NaN"
| "js_add fl NegInf PosInf = NaN"
| "js_add fl PosInf b = PosInf"
| "js_add fl NegInf b = NegInf"
| "js_add fl a PosInf = PosInf"
| "js_add fl a NegInf = NegInf"

definition js_sub :: "(real \<Rightarrow> real) \<Rightarrow> number \<Rightarrow> number \<Rightarrow> number" where
  "js_sub fl a b = js_add fl a (js_neg b)"

text \<open>The comparison \<open>a < b\<close>; \<open>a > b\<close> is \<open>b < a\<close>.\<close>

fun js_lt :: "number \<Rightarrow> number \<Rightarrow> bool" where
  "js_lt NaN b = False"
| "js_lt a NaN = False"
| "js_lt (Num x) (Num y) = (x < y)"
| "js_lt (Num x) PosInf = True"
| "js_lt (Num x) NegInf = False"
| "js_lt PosInf b = False"
| "js_lt NegInf NegInf = False"
| "js_lt NegInf b = True"

definition js_gt :: "number \<Rightarrow> number \<Rightarrow> bool" where
  "js_gt a b = js_lt b a"

definition Math_min :: "number \<Rightarrow> number \<Rightarrow> number" where
  "Math_min a b = (if a = NaN \<or> b = NaN then NaN else if js_lt b a then b else a)"

definition Math_max :: "number \<Rightarrow> number \<Rightarrow> number" where
  "Math_max a b = (if a = NaN \<or> b = NaN then NaN else if js_lt a b then b else a)"

fun Math_floor :: "number \<Rightarrow> number" where
  "Math_floor (Num x) = Num (of_int \<lfloor>x\<rfloor>)"
| "Math_floor a = a"

text \<open>
  \<open>Math.pow(2, n)\<close> for a counter \<open>n\<close>: a power of two is a double up to \<open>2^1023\<close>, and
  the result is \<open>Infinity\<close> from \<open>n = 1024\<close> on.
\<close>

definition Math_pow_2 :: "nat \<Rightarrow> number" where
  "Math_pow_2 n = (if n < 1024 then Num (2 ^ n) else PosInf)"

text \<open>
  The properties of rounding to nearest that the proofs use: it is monotone, leaves a
  double unchanged (\<open>fl x = x\<close> says that \<open>x\<close> is a double), is symmetric about zero, and
  the double of a double is a double.
\<close>

definition rounding :: "(real \<Rightarrow> real) \<Rightarrow> bool" where
  "rounding fl \<longleftrightarrow>
     (\<forall>x y. x \<le> y \<longrightarrow> fl x \<le> fl y)
     \<and> (\<forall>x. fl (fl x) = fl x)
     \<and> (\<forall>x. fl (- x) = - fl x)
     \<and> (\<forall>x. fl x = x \<longrightarrow> fl (2 * x) = 2 * x)"

section \<open>utils/http.ts: ExponentialBackoff and withBackoff\<close>

text \<open>
  The delays and the jitter are numbers; \<open>maxAttempts\<close> and the attempt counter are
  counts (the counter stays far below \<open>2^53\<close>, where \<open>++\<close> is exact). The value drawn
  from \<open>Math.random()\<close> is a parameter of \<open>next\<close>: a double in [0, 1). The literal
  \<open>0.2\<close> of the constructor is the double nearest to one fifth.
\<close>

record BackoffOptions =
  baseDelay :: number
  maxDelay :: number
  maxAttempts :: int
  jitter :: number

record PartialBackoffOptions =
  opt_baseDelay :: "number option"
  opt_maxDelay :: "number option"
  opt_maxAttempts :: "int option"
  opt_jitter :: "number option"

record ExponentialBackoff =
  attempt :: nat
  options :: BackoffOptions

definition new_ExponentialBackoff ::
  "(real \<Rightarrow> real) \<Rightarrow> PartialBackoffOptions \<Rightarrow> ExponentialBackoff" where
  "new_ExponentialBackoff fl opts =
     \<lparr>attempt = 0,
      options = \<lparr>baseDelay = (case opt_baseDelay opts of Some v \<Rightarrow> v | None \<Rightarrow> Num 1000),
                 maxDelay = (case opt_maxDelay opts of Some v \<Rightarrow> v | None \<Rightarrow> Num 60000),
                 maxAttempts = (case opt_maxAttempts opts of Some v \<Rightarrow> v | None \<Rightarrow> 0),
                 jitter = (case opt_jitter opts of Some v \<Rightarrow> v | None \<Rightarrow> Num (fl (2 / 10)))\<rparr>\<rparr>"

definition ExponentialBackoff_next ::
  "(real \<Rightarrow> real) \<Rightarrow> ExponentialBackoff \<Rightarrow> real
     \<Rightarrow> js_thrown + (number \<times> ExponentialBackoff)" where
  "ExponentialBackoff_next fl b random =
     (if maxAttempts (options b) > 0 \<and> int (attempt b) \<ge> maxAttempts (options b)
      then Inl (JsError ''Maximum reconnection attempts reached'')
      else
        let exponentialDelay = js_mul fl (baseDelay (options b)) (Math_pow_2 (attempt b));
            cappedDelay = Math_min exponentialDelay (maxDelay (options b));
            jitterRange = js_mul fl cappedDelay (jitter (options b));
            jitterValue = js_sub fl (js_mul fl (js_mul fl (Num random) jitterRange) (Num 2))
                            jitterRange;
            finalDelay = Math_max (Num 0) (js_add fl cappedDelay jitterValue)
        in Inr (Math_floor finalDelay, b\<lparr>attempt := attempt b + 1\<rparr>))"

definition getAttempt :: "ExponentialBackoff \<Rightarrow> nat" where
  "getAttempt b = attempt b"

definition reset :: "ExponentialBackoff \<Rightarrow> ExponentialBackoff" where
  "reset b = b\<lparr>attempt := 0\<rparr>"

definition hasReachedMaxAttempts :: "ExponentialBackoff \<Rightarrow> bool" where
  "hasReachedMaxAttempts b =
     (maxAttempts (options b) > 0 \<and> int (attempt b) \<ge> maxAttempts (options b))"

text \<open>
  Successive calls of \<open>next\<close> on one object, one random draw per call, up to the first
  call that throws.
\<close>

fun nexts ::
  "(real \<Rightarrow> real) \<Rightarrow> ExponentialBackoff \<Rightarrow> real list
     \<Rightarrow> js_thrown + (number list \<times> ExponentialBackoff)" where
  "nexts fl b [] = Inr ([], b)"
| "nexts fl b (random # rs) =
     (case ExponentialBackoff_next fl b random of
        Inl e \<Rightarrow> Inl e
      | Inr (delay, b') \<Rightarrow>
          (case nexts fl b' rs of
             Inl e \<Rightarrow> Inl e
           | Inr (delays, b'') \<Rightarrow> Inr (delay # delays, b'')))"

text \<open>\<open>error instanceof Error ? error : new Error(String(error))\<close>\<close>

definition toError :: "js_thrown \<Rightarrow> js_thrown" where
  "toError error = (case error of JsError m \<Rightarrow> JsError m | JsValue s \<Rightarrow> JsError s)"

text \<open>
  \<open>withBackoff\<close>. The function \<open>fn\<close> is given by the outcome of each of its invocations
  (\<open>fn k\<close> for the invocation after \<open>k\<close> earlier ones; every invocation settles), and
  \<open>rnd k\<close> is the random draw of the \<open>next\<close> that follows it. \<open>sleep\<close> only waits. The
  loop need not end (\<open>maxAttempts = 0\<close> and a function that always fails), so its value
  is optional: \<open>None\<close> when it runs for ever, otherwise the result and the number of
  invocations of \<open>fn\<close>.
\<close>

partial_function (option) withBackoff_loop ::
  "(real \<Rightarrow> real) \<Rightarrow> (nat \<Rightarrow> js_thrown + 'a) \<Rightarrow> (nat \<Rightarrow> real) \<Rightarrow> ExponentialBackoff \<Rightarrow> nat
     \<Rightarrow> js_thrown option \<Rightarrow> ((js_thrown + 'a) \<times> nat) option" where
  "withBackoff_loop fl fn rnd backoff calls lastError =
     (if hasReachedMaxAttempts backoff
      then Some (Inl (case lastError of
                        Some e \<Rightarrow> e
                      | None \<Rightarrow> JsError ''Backoff failed with unknown error''), calls)
      else
        (case fn calls of
           Inr v \<Rightarrow> Some (Inr v, Suc calls)
         | Inl error \<Rightarrow>
             if hasReachedMaxAttempts backoff then Some (Inl (toError error), Suc calls)
             else
               (case ExponentialBackoff_next fl backoff (rnd calls) of
                  Inl e \<Rightarrow> Some (Inl e, Suc calls)
                | Inr (delay, backoff') \<Rightarrow>
                    withBackoff_loop fl fn rnd backoff' (Suc calls) (Some (toError error)))))"

definition withBackoff ::
  "(real \<Rightarrow> real) \<Rightarrow> (nat \<Rightarrow> js_thrown + 'a) \<Rightarrow> (nat \<Rightarrow> real) \<Rightarrow> PartialBackoffOptions
     \<Rightarrow> ((js_thrown + 'a) \<times> nat) option" where
  "withBackoff fl fn rnd opts =
     withBackoff_loop fl fn rnd (new_ExponentialBackoff fl opts) 0 None"

section \<open>FilterBuilder\<close>

text \<open>
  Modelled from the spec: \<open>EqualizerBand\<close> and \<open>FilterOptions\<close> are declared in
  types/lavalink.ts, which is not among the sources. A band is the pair of numbers the
  validation reads; of the filter options only the equalizer entry is named, the other
  entries are the record's extension.
\<close>

record EqualizerBand =
  band :: number
  gain :: number

record FilterOptions =
  equalizer_bands :: "EqualizerBand list option"

record 'a FilterBuilder =
  filters :: "'a FilterOptions_scheme"
  builder_player :: Player

text \<open>
  The validation loop of \<open>equalizer\<close>: the first offending band decides the error. The
  bounds 0, 14, -0.25 and 1.0 are doubles.
\<close>

fun validateBands :: "EqualizerBand list \<Rightarrow> js_thrown option" where
  "validateBands [] = None"
| "validateBands (b # bands) =
     (if js_lt (band b) (Num 0) \<or> js_gt (band b) (Num 14)
      then Some (JsError ''Equalizer band must be between 0 and 14'')
      else if js_lt (gain b) (Num (- 0.25)) \<or> js_gt (gain b) (Num 1.0)
      then Some (JsError ''Equalizer gain must be between -0.25 and 1.0'')
      else validateBands bands)"

text \<open>\<open>equalizer\<close> returns the builder afterwards and the thrown value, if any.\<close>

definition equalizer ::
  "'a FilterBuilder \<Rightarrow> EqualizerBand list \<Rightarrow> 'a FilterBuilder \<times> js_thrown option" where
  "equalizer this bands =
     (case validateBands bands of
        Some e \<Rightarrow> (this, Some e)
      | None \<Rightarrow> (this\<lparr>filters := (filters this)\<lparr>equalizer_bands := Some bands\<rparr>\<rparr>, None))"

section \<open>Properties of the voice forwarder\<close>

subsection \<open>Auxiliary facts\<close>

lemma forwards_append: "forwards (xs @ ys) = forwards xs @ forwards ys"
  by (induction xs rule: forwards.induct) auto

lemma forwardVoiceState_credential:
  "forwardVoiceState p v =
     (case credential v of
        None \<Rightarrow> ([], Some (JsError ''Incomplete voice state''))
      | Some c \<Rightarrow> ([UpdateVoiceState p c,
                     Debug (''Forwarded voice state to Lavalink for guild '' @ player_guildId p)],
                    None))"
  by (simp add: forwardVoiceState_def credential_def split: option.split)

lemma credential_falsy:
  "\<not> truthy (sessionId v) \<Longrightarrow> credential v = None"
  "\<not> truthy (token v) \<Longrightarrow> credential v = None"
  "\<not> truthy (endpoint v) \<Longrightarrow> credential v = None"
  by (auto simp: credential_def truthy_def split: option.splits)

lemma server_forwards:
  "handleVoiceServerUpdate fw d (Some p) = (fw', acts, thrown) \<Longrightarrow>
   forwards acts = stored_credential fw' (d_guild_id d)"
  unfolding handleVoiceServerUpdate_def Let_def forwardVoiceState_credential
  by (auto simp: stored_credential_def credential_falsy split: if_splits option.splits)

lemma state_forwards:
  "handleVoiceStateUpdate fw d (Some p) = (fw', acts, thrown) \<Longrightarrow>
   forwards acts =
     (if s_user_id d = clientId fw then stored_credential fw' (s_guild_id d) else [])"
  unfolding handleVoiceStateUpdate_def Let_def forwardVoiceState_credential
  by (auto simp: stored_credential_def forwards_append credential_falsy
      split: if_splits option.splits)

lemma event_forwards:
  "handleVoiceUpdate fw ev (Some p) = (fw', acts, thrown) \<Longrightarrow>
   forwards acts = (if processed fw ev then stored_credential fw' (event_guild ev) else [])"
  by (cases ev) (simp_all add: server_forwards state_forwards)

lemma server_state_after:
  "handleVoiceServerUpdate fw d player = (fw', acts, thrown) \<Longrightarrow>
   clientId fw' = clientId fw \<and>
   voiceStates fw' = (voiceStates fw)(d_guild_id d \<mapsto>
      (case voiceStates fw (d_guild_id d) of
         None \<Rightarrow> \<lparr>guildId = d_guild_id d, channelId = None, sessionId = None,
                   token = None, endpoint = None\<rparr>
       | Some v \<Rightarrow> v)\<lparr>token := Some (d_token d), endpoint := Some (d_endpoint d)\<rparr>)"
  unfolding handleVoiceServerUpdate_def Let_def
  by (auto split: option.splits if_splits prod.splits)

lemma state_state_after:
  "handleVoiceStateUpdate fw d player = (fw', acts, thrown) \<Longrightarrow>
   clientId fw' = clientId fw \<and>
   voiceStates fw' =
     (if s_user_id d \<noteq> clientId fw then voiceStates fw
      else if truthy (s_channel_id d)
      then (voiceStates fw)(s_guild_id d \<mapsto>
        (case voiceStates fw (s_guild_id d) of
           None \<Rightarrow> \<lparr>guildId = s_guild_id d, channelId = s_channel_id d, sessionId = None,
                     token = None, endpoint = None\<rparr>
         | Some v \<Rightarrow> v)\<lparr>sessionId := Some (s_session_id d), channelId := s_channel_id d\<rparr>)
      else (voiceStates fw)(s_guild_id d := None))"
  unfolding handleVoiceStateUpdate_def Let_def
  by (auto simp: truthy_def split: option.splits if_splits prod.splits)

lemma server_idem:
  assumes "handleVoiceServerUpdate fw d player = (fw', acts, thrown)"
  shows "fst (handleVoiceServerUpdate fw' d player') = fw'"
proof -
  obtain f a t where r: "handleVoiceServerUpdate fw' d player' = (f, a, t)"
    by (cases "handleVoiceServerUpdate fw' d player'")
  have "clientId f = clientId fw'" "voiceStates f = voiceStates fw'"
    using server_state_after[OF r] server_state_after[OF assms] by (auto simp: fun_eq_iff)
  then show ?thesis using r by simp
qed

lemma state_idem:
  assumes "handleVoiceStateUpdate fw d player = (fw', acts, thrown)"
  shows "fst (handleVoiceStateUpdate fw' d player') = fw'"
proof -
  obtain f a t where r: "handleVoiceStateUpdate fw' d player' = (f, a, t)"
    by (cases "handleVoiceStateUpdate fw' d player'")
  have "clientId f = clientId fw'" "voiceStates f = voiceStates fw'"
    using state_state_after[OF r] state_state_after[OF assms] by (auto simp: fun_eq_iff)
  then show ?thesis using r by simp
qed

lemma event_idem:
  "handleVoiceUpdate fw ev player = (fw', acts, thrown) \<Longrightarrow>
   fst (handleVoiceUpdate fw' ev player') = fw'"
  by (cases ev) (simp_all add: server_idem state_idem)

lemma event_clientId:
  "handleVoiceUpdate fw ev player = (fw', acts, thrown) \<Longrightarrow> clientId fw' = clientId fw"
  by (cases ev) (simp_all add: server_state_after state_state_after)

lemma redelivery_forwards_again:
  assumes 1: "handleVoiceUpdate fw ev (Some p) = (fw', acts, thrown)"
      and 2: "handleVoiceUpdate fw' ev (Some p') = (fw'', acts', thrown')"
  shows "fw'' = fw' \<and> forwards acts' = forwards acts"
proof -
  have a: "fw'' = fw'" using event_idem[OF 1, of "Some p'"] 2 by simp
  have b: "processed fw' ev = processed fw ev"
    using event_clientId[OF 1] by (cases ev) simp_all
  show ?thesis using a b event_forwards[OF 1] event_forwards[OF 2] by simp
qed

lemma first_pair_either_order:
  assumes "voiceStates fw g = None" and "t \<noteq> []" and "e \<noteq> []" and "s \<noteq> []" and "c \<noteq> []"
  shows "fst (snd (handleVoiceUpdates fw
            [(VOICE_SERVER_UPDATE \<lparr>d_guild_id = g, d_token = t, d_endpoint = e\<rparr>, Some p),
             (VOICE_STATE_UPDATE \<lparr>s_guild_id = g, s_user_id = clientId fw, s_session_id = s,
                                  s_channel_id = Some c\<rparr>, Some p')]))
         = [Debug (''Voice server update for guild '' @ g),
            Debug (''Voice state update for guild '' @ g)]
           @ (if voiceChannelId p' \<noteq> c then [PlayerMove p' (voiceChannelId p') c] else [])
           @ [UpdateVoiceState p' (VoiceState t e s),
              Debug (''Forwarded voice state to Lavalink for guild '' @ player_guildId p')]"
    and "fst (snd (handleVoiceUpdates fw
            [(VOICE_STATE_UPDATE \<lparr>s_guild_id = g, s_user_id = clientId fw, s_session_id = s,
                                  s_channel_id = Some c\<rparr>, Some p'),
             (VOICE_SERVER_UPDATE \<lparr>d_guild_id = g, d_token = t, d_endpoint = e\<rparr>, Some p)]))
         = [Debug (''Voice state update for guild '' @ g)]
           @ (if voiceChannelId p' \<noteq> c then [PlayerMove p' (voiceChannelId p') c] else [])
           @ [Debug (''Voice server update for guild '' @ g),
              UpdateVoiceState p (VoiceState t e s),
              Debug (''Forwarded voice state to Lavalink for guild '' @ player_guildId p)]"
  using assms
  by (simp_all add: handleVoiceServerUpdate_def handleVoiceStateUpdate_def
      forwardVoiceState_def truthy_def Let_def)

lemma no_forward_without_state:
  assumes "voiceStates fw (event_guild ev) = None"
  shows "forwards (fst (snd (handleVoiceUpdate fw ev player))) = []
         \<and> snd (snd (handleVoiceUpdate fw ev player)) = None"
proof (cases ev)
  case (VOICE_SERVER_UPDATE d)
  then show ?thesis using assms
    by (simp add: handleVoiceServerUpdate_def truthy_def Let_def split: option.splits)
next
  case (VOICE_STATE_UPDATE d)
  then show ?thesis using assms
    by (simp add: handleVoiceStateUpdate_def truthy_def Let_def split: option.splits)
qed

subsection \<open>Claims\<close>

text \<open>
  C8. A VOICE_STATE_UPDATE whose user_id is not the configured client id has no effect:
  the forwarder (and so the per-guild voice-state map) is returned unchanged, no action
  is performed (no forward, no disconnect, no playerMove, not even a debug event), and
  nothing is thrown.
\<close>

theorem handleVoiceStateUpdate_other_user:
  assumes "s_user_id d \<noteq> clientId fw"
  shows "handleVoiceStateUpdate fw d player = (fw, [], None)"
  using assms by (simp add: handleVoiceStateUpdate_def)

theorem handleVoiceStateUpdate_other_user_witness:
  "s_user_id \<lparr>s_guild_id = ''g1'', s_user_id = ''someone'', s_session_id = ''s1'',
              s_channel_id = Some ''c1''\<rparr>
     \<noteq> clientId \<lparr>voiceStates = Map.empty, clientId = ''bot''\<rparr>
   \<and> handleVoiceStateUpdate \<lparr>voiceStates = Map.empty, clientId = ''bot''\<rparr>
        \<lparr>s_guild_id = ''g1'', s_user_id = ''someone'', s_session_id = ''s1'',
         s_channel_id = Some ''c1''\<rparr>
        (Some \<lparr>player_guildId = ''g1'', voiceChannelId = ''c0'', node = ''n1''\<rparr>)
     = (\<lparr>voiceStates = Map.empty, clientId = ''bot''\<rparr>, [], None)"
  using handleVoiceStateUpdate_other_user
    [of "\<lparr>s_guild_id = ''g1'', s_user_id = ''someone'', s_session_id = ''s1'',
          s_channel_id = Some ''c1''\<rparr>"
        "\<lparr>voiceStates = Map.empty, clientId = ''bot''\<rparr>"
        "Some \<lparr>player_guildId = ''g1'', voiceChannelId = ''c0'', node = ''n1''\<rparr>"]
  by simp

text \<open>
  C1. The claim is that the ``Incomplete voice state'' branch of \<open>forwardVoiceState\<close>
  cannot be reached from \<open>handleVoiceUpdate\<close>. It can: \<open>handleVoiceServerUpdate\<close> tests
  only \<open>player && voiceState.sessionId\<close> before it calls \<open>forwardVoiceState\<close>. With a
  session id stored by an earlier VOICE_STATE_UPDATE, a VOICE_SERVER_UPDATE whose endpoint
  is the empty string makes the call throw; nothing is forwarded.
\<close>

theorem incomplete_voice_state_reachable:
  "performed (handleVoiceUpdates \<lparr>voiceStates = Map.empty, clientId = ''bot''\<rparr>
     [(VOICE_STATE_UPDATE \<lparr>s_guild_id = ''g1'', s_user_id = ''bot'', s_session_id = ''s1'',
                           s_channel_id = Some ''c1''\<rparr>,
       Some \<lparr>player_guildId = ''g1'', voiceChannelId = ''c1'', node = ''n1''\<rparr>),
      (VOICE_SERVER_UPDATE \<lparr>d_guild_id = ''g1'', d_token = ''t1'', d_endpoint = []\<rparr>,
       Some \<lparr>player_guildId = ''g1'', voiceChannelId = ''c1'', node = ''n1''\<rparr>)])
     = [Debug ''Voice state update for guild g1'', Debug ''Voice server update for guild g1'']
   \<and> thrown_by (handleVoiceUpdates \<lparr>voiceStates = Map.empty, clientId = ''bot''\<rparr>
     [(VOICE_STATE_UPDATE \<lparr>s_guild_id = ''g1'', s_user_id = ''bot'', s_session_id = ''s1'',
                           s_channel_id = Some ''c1''\<rparr>,
       Some \<lparr>player_guildId = ''g1'', voiceChannelId = ''c1'', node = ''n1''\<rparr>),
      (VOICE_SERVER_UPDATE \<lparr>d_guild_id = ''g1'', d_token = ''t1'', d_endpoint = []\<rparr>,
       Some \<lparr>player_guildId = ''g1'', voiceChannelId = ''c1'', node = ''n1''\<rparr>)])
     = [JsError ''Incomplete voice state'']"
  by (simp add: performed_def thrown_by_def handleVoiceServerUpdate_def
      handleVoiceStateUpdate_def forwardVoiceState_def truthy_def Let_def)

text \<open>
  C2 as stated fails: the forwarder keeps no record of what it has forwarded, so a
  VOICE_SERVER_UPDATE delivered twice with the same token and endpoint is forwarded
  twice. One state event followed by the same server event twice gives two forwards of
  the one complete pair.
\<close>

theorem redelivered_event_forwards_twice:
  "forwards (performed (handleVoiceUpdates \<lparr>voiceStates = Map.empty, clientId = ''bot''\<rparr>
     [(VOICE_STATE_UPDATE \<lparr>s_guild_id = ''g1'', s_user_id = ''bot'', s_session_id = ''s1'',
                           s_channel_id = Some ''c1''\<rparr>,
       Some \<lparr>player_guildId = ''g1'', voiceChannelId = ''c1'', node = ''n1''\<rparr>),
      (VOICE_SERVER_UPDATE \<lparr>d_guild_id = ''g1'', d_token = ''t1'', d_endpoint = ''e1''\<rparr>,
       Some \<lparr>player_guildId = ''g1'', voiceChannelId = ''c1'', node = ''n1''\<rparr>),
      (VOICE_SERVER_UPDATE \<lparr>d_guild_id = ''g1'', d_token = ''t1'', d_endpoint = ''e1''\<rparr>,
       Some \<lparr>player_guildId = ''g1'', voiceChannelId = ''c1'', node = ''n1''\<rparr>)]))
   = [VoiceState ''t1'' ''e1'' ''s1'', VoiceState ''t1'' ''e1'' ''s1'']"
  by (simp add: performed_def handleVoiceServerUpdate_def handleVoiceStateUpdate_def
      forwardVoiceState_def truthy_def Let_def)

text \<open>
  C2, amended. With a player present, every event forwards at most once, and exactly
  once when it is processed and leaves the guild's stored token, endpoint and session id
  all non-empty; the credential forwarded is the stored one. Hence the first complete
  pair of a guild is forwarded exactly once whichever fragment arrives first. Delivering
  the same event again leaves the forwarder as it was and forwards once more whatever
  the first delivery forwarded.
\<close>

theorem forward_once_per_complete_event:
  "forwards (performed (handleVoiceUpdate fw ev (Some p)))
     = (if processed fw ev
        then stored_credential (forwarder_after (handleVoiceUpdate fw ev (Some p))) (event_guild ev)
        else [])
   \<and> length (forwards (performed (handleVoiceUpdate fw ev (Some p)))) \<le> 1
   \<and> forwarder_after (handleVoiceUpdate (forwarder_after (handleVoiceUpdate fw ev (Some p))) ev (Some p'))
       = forwarder_after (handleVoiceUpdate fw ev (Some p))
   \<and> forwards (performed
         (handleVoiceUpdate (forwarder_after (handleVoiceUpdate fw ev (Some p))) ev (Some p')))
       = forwards (performed (handleVoiceUpdate fw ev (Some p)))
   \<and> (voiceStates fw g = None \<longrightarrow> t \<noteq> [] \<longrightarrow> e \<noteq> [] \<longrightarrow> s \<noteq> [] \<longrightarrow> c \<noteq> [] \<longrightarrow>
        forwards (performed (handleVoiceUpdates fw
          [(VOICE_SERVER_UPDATE \<lparr>d_guild_id = g, d_token = t, d_endpoint = e\<rparr>, Some p),
           (VOICE_STATE_UPDATE \<lparr>s_guild_id = g, s_user_id = clientId fw, s_session_id = s,
                                s_channel_id = Some c\<rparr>, Some p')]))
          = [VoiceState t e s]
      \<and> forwards (performed (handleVoiceUpdates fw
          [(VOICE_STATE_UPDATE \<lparr>s_guild_id = g, s_user_id = clientId fw, s_session_id = s,
                                s_channel_id = Some c\<rparr>, Some p'),
           (VOICE_SERVER_UPDATE \<lparr>d_guild_id = g, d_token = t, d_endpoint = e\<rparr>, Some p)]))
          = [VoiceState t e s])"
proof -
  obtain fw' acts thrown where 1: "handleVoiceUpdate fw ev (Some p) = (fw', acts, thrown)"
    by (cases "handleVoiceUpdate fw ev (Some p)")
  obtain fw'' acts' thrown' where 2: "handleVoiceUpdate fw' ev (Some p') = (fw'', acts', thrown')"
    by (cases "handleVoiceUpdate fw' ev (Some p')")
  have a: "forwards acts = (if processed fw ev then stored_credential fw' (event_guild ev) else [])"
    by (rule event_forwards[OF 1])
  have b: "length (forwards acts) \<le> 1"
    unfolding a by (simp add: stored_credential_def split: option.split)
  have c: "fw'' = fw' \<and> forwards acts' = forwards acts"
    by (rule redelivery_forwards_again[OF 1 2])
  have d: "voiceStates fw g = None \<longrightarrow> t \<noteq> [] \<longrightarrow> e \<noteq> [] \<longrightarrow> s \<noteq> [] \<longrightarrow> c \<noteq> [] \<longrightarrow>
        forwards (performed (handleVoiceUpdates fw
          [(VOICE_SERVER_UPDATE \<lparr>d_guild_id = g, d_token = t, d_endpoint = e\<rparr>, Some p),
           (VOICE_STATE_UPDATE \<lparr>s_guild_id = g, s_user_id = clientId fw, s_session_id = s,
                                s_channel_id = Some c\<rparr>, Some p')]))
          = [VoiceState t e s]
      \<and> forwards (performed (handleVoiceUpdates fw
          [(VOICE_STATE_UPDATE \<lparr>s_guild_id = g, s_user_id = clientId fw, s_session_id = s,
                                s_channel_id = Some c\<rparr>, Some p'),
           (VOICE_SERVER_UPDATE \<lparr>d_guild_id = g, d_token = t, d_endpoint = e\<rparr>, Some p)]))
          = [VoiceState t e s]"
  proof (intro impI)
    assume h: "voiceStates fw g = None" "t \<noteq> []" "e \<noteq> []" "s \<noteq> []" "c \<noteq> []"
    show "forwards (performed (handleVoiceUpdates fw
          [(VOICE_SERVER_UPDATE \<lparr>d_guild_id = g, d_token = t, d_endpoint = e\<rparr>, Some p),
           (VOICE_STATE_UPDATE \<lparr>s_guild_id = g, s_user_id = clientId fw, s_session_id = s,
                                s_channel_id = Some c\<rparr>, Some p')]))
          = [VoiceState t e s]
      \<and> forwards (performed (handleVoiceUpdates fw
          [(VOICE_STATE_UPDATE \<lparr>s_guild_id = g, s_user_id = clientId fw, s_session_id = s,
                                s_channel_id = Some c\<rparr>, Some p'),
           (VOICE_SERVER_UPDATE \<lparr>d_guild_id = g, d_token = t, d_endpoint = e\<rparr>, Some p)]))
          = [VoiceState t e s]"
      unfolding performed_def first_pair_either_order[OF h]
      by (simp add: forwards_append)
  qed
  show ?thesis
    using a b c d unfolding 1 2 performed_def forwarder_after_def
    by (simp add: 1 2)
qed

theorem forward_once_per_complete_event_witness:
  "voiceStates \<lparr>voiceStates = Map.empty, clientId = ''bot''\<rparr> ''g1'' = None
   \<and> forwards (performed (handleVoiceUpdates \<lparr>voiceStates = Map.empty, clientId = ''bot''\<rparr>
          [(VOICE_SERVER_UPDATE \<lparr>d_guild_id = ''g1'', d_token = ''t1'', d_endpoint = ''e1''\<rparr>,
            Some \<lparr>player_guildId = ''g1'', voiceChannelId = ''c1'', node = ''n1''\<rparr>),
           (VOICE_STATE_UPDATE \<lparr>s_guild_id = ''g1'', s_user_id = ''bot'', s_session_id = ''s1'',
                                s_channel_id = Some ''c1''\<rparr>,
            Some \<lparr>player_guildId = ''g1'', voiceChannelId = ''c1'', node = ''n1''\<rparr>)]))
     = [VoiceState ''t1'' ''e1'' ''s1'']
   \<and> forwards (performed (handleVoiceUpdates \<lparr>voiceStates = Map.empty, clientId = ''bot''\<rparr>
          [(VOICE_STATE_UPDATE \<lparr>s_guild_id = ''g1'', s_user_id = ''bot'', s_session_id = ''s1'',
                                s_channel_id = Some ''c1''\<rparr>,
            Some \<lparr>player_guildId = ''g1'', voiceChannelId = ''c1'', node = ''n1''\<rparr>),
           (VOICE_SERVER_UPDATE \<lparr>d_guild_id = ''g1'', d_token = ''t1'', d_endpoint = ''e1''\<rparr>,
            Some \<lparr>player_guildId = ''g1'', voiceChannelId = ''c1'', node = ''n1''\<rparr>)]))
     = [VoiceState ''t1'' ''e1'' ''s1'']"
  using forward_once_per_complete_event
    [of "\<lparr>voiceStates = Map.empty, clientId = ''bot''\<rparr>"
        "VOICE_SERVER_UPDATE \<lparr>d_guild_id = ''g1'', d_token = ''t1'', d_endpoint = ''e1''\<rparr>"
        "\<lparr>player_guildId = ''g1'', voiceChannelId = ''c1'', node = ''n1''\<rparr>"
        "\<lparr>player_guildId = ''g1'', voiceChannelId = ''c1'', node = ''n1''\<rparr>"
        "''g1''" "''t1''" "''e1''" "''s1''" "''c1''"]
  by simp

text \<open>
  C5. When a VOICE_STATE_UPDATE for the bot has an empty or absent channel, the handler
  deletes the guild's stored voice state, calls \<open>player.disconnect()\<close> when a player is
  given, forwards nothing and throws nothing. Afterwards the guild has no stored state, so
  the next event for that guild, of either kind and with any player, forwards nothing
  either: a forward needs both fragments to arrive anew.
\<close>

theorem departure_clears_state:
  assumes "s_user_id d = clientId fw" and "\<not> truthy (s_channel_id d)"
  shows "handleVoiceStateUpdate fw d player =
           (fw\<lparr>voiceStates := (voiceStates fw)(s_guild_id d := None)\<rparr>,
            Debug (''Voice state update for guild '' @ s_guild_id d)
              # (case player of Some p \<Rightarrow> [Disconnect p] | None \<Rightarrow> []),
            None)
       \<and> voiceStates (forwarder_after (handleVoiceStateUpdate fw d player)) (s_guild_id d) = None
       \<and> forwards (performed (handleVoiceStateUpdate fw d player)) = []
       \<and> (\<forall>ev player'. event_guild ev = s_guild_id d \<longrightarrow>
             forwards (performed
               (handleVoiceUpdate (forwarder_after (handleVoiceStateUpdate fw d player)) ev player'))
               = []
           \<and> thrown_by
               (handleVoiceUpdate (forwarder_after (handleVoiceStateUpdate fw d player)) ev player')
               = None)"
proof -
  let ?fw' = "fw\<lparr>voiceStates := (voiceStates fw)(s_guild_id d := None)\<rparr>"
  have r: "handleVoiceStateUpdate fw d player =
           (?fw',
            Debug (''Voice state update for guild '' @ s_guild_id d)
              # (case player of Some p \<Rightarrow> [Disconnect p] | None \<Rightarrow> []),
            None)"
    using assms
    by (simp add: handleVoiceStateUpdate_def truthy_def Let_def split: option.splits)
  have n: "\<And>ev player'. event_guild ev = s_guild_id d \<Longrightarrow>
             forwards (fst (snd (handleVoiceUpdate ?fw' ev player'))) = []
           \<and> snd (snd (handleVoiceUpdate ?fw' ev player')) = None"
    by (rule no_forward_without_state) simp
  show ?thesis
    unfolding r forwarder_after_def performed_def thrown_by_def
    using n by (simp split: option.split)
qed

theorem departure_clears_state_witness:
  "handleVoiceStateUpdate
     \<lparr>voiceStates = [''g1'' \<mapsto> \<lparr>guildId = ''g1'', channelId = Some ''c1'', sessionId = Some ''s1'',
                                  token = Some ''t1'', endpoint = Some ''e1''\<rparr>],
      clientId = ''bot''\<rparr>
     \<lparr>s_guild_id = ''g1'', s_user_id = ''bot'', s_session_id = ''s1'', s_channel_id = None\<rparr>
     (Some \<lparr>player_guildId = ''g1'', voiceChannelId = ''c1'', node = ''n1''\<rparr>)
   = (\<lparr>voiceStates = Map.empty, clientId = ''bot''\<rparr>,
      [Debug ''Voice state update for guild g1'',
       Disconnect \<lparr>player_guildId = ''g1'', voiceChannelId = ''c1'', node = ''n1''\<rparr>],
      None)"
  using departure_clears_state
    [of "\<lparr>s_guild_id = ''g1'', s_user_id = ''bot'', s_session_id = ''s1'', s_channel_id = None\<rparr>"
        "\<lparr>voiceStates = [''g1'' \<mapsto> \<lparr>guildId = ''g1'', channelId = Some ''c1'',
                                      sessionId = Some ''s1'', token = Some ''t1'',
                                      endpoint = Some ''e1''\<rparr>],
          clientId = ''bot''\<rparr>"
        "Some \<lparr>player_guildId = ''g1'', voiceChannelId = ''c1'', node = ''n1''\<rparr>"]
  by (simp add: truthy_def)

text \<open>
  C6 as stated fails: the forwarder never looks at the node a player is assigned to.
  After a complete pair was forwarded for a player on node n1, the same
  VOICE_STATE_UPDATE arrives for the player now on node n2, in the channel the player
  already records: the credential is forwarded again and no playerMove is emitted.
\<close>

theorem node_change_emits_no_playerMove:
  "performed (handleVoiceUpdates \<lparr>voiceStates = Map.empty, clientId = ''bot''\<rparr>
     [(VOICE_SERVER_UPDATE \<lparr>d_guild_id = ''g1'', d_token = ''t1'', d_endpoint = ''e1''\<rparr>,
       Some \<lparr>player_guildId = ''g1'', voiceChannelId = ''c1'', node = ''n1''\<rparr>),
      (VOICE_STATE_UPDATE \<lparr>s_guild_id = ''g1'', s_user_id = ''bot'', s_session_id = ''s1'',
                           s_channel_id = Some ''c1''\<rparr>,
       Some \<lparr>player_guildId = ''g1'', voiceChannelId = ''c1'', node = ''n1''\<rparr>),
      (VOICE_STATE_UPDATE \<lparr>s_guild_id = ''g1'', s_user_id = ''bot'', s_session_id = ''s1'',
                           s_channel_id = Some ''c1''\<rparr>,
       Some \<lparr>player_guildId = ''g1'', voiceChannelId = ''c1'', node = ''n2''\<rparr>)])
   = [Debug ''Voice server update for guild g1'',
      Debug ''Voice state update for guild g1'',
      UpdateVoiceState \<lparr>player_guildId = ''g1'', voiceChannelId = ''c1'', node = ''n1''\<rparr>
        (VoiceState ''t1'' ''e1'' ''s1''),
      Debug ''Forwarded voice state to Lavalink for guild g1'',
      Debug ''Voice state update for guild g1'',
      UpdateVoiceState \<lparr>player_guildId = ''g1'', voiceChannelId = ''c1'', node = ''n2''\<rparr>
        (VoiceState ''t1'' ''e1'' ''s1''),
      Debug ''Forwarded voice state to Lavalink for guild g1'']"
  by (simp add: performed_def handleVoiceServerUpdate_def handleVoiceStateUpdate_def
      forwardVoiceState_def truthy_def Let_def)

text \<open>
  C6, amended. For a VOICE_STATE_UPDATE for the bot with a non-empty channel and a player
  present: when the channel differs from \<open>player.voiceChannelId\<close>, one playerMove carrying
  the player, the old and the new channel is emitted right after the debug event and before
  anything is forwarded; when the channel is the same, no playerMove is emitted, whatever
  node the player is on. What follows (the forward, if any) contains no playerMove.
\<close>

theorem playerMove_before_forward:
  assumes "s_user_id d = clientId fw" and "s_channel_id d = Some c" and "c \<noteq> []"
  shows "\<exists>rest.
           performed (handleVoiceStateUpdate fw d (Some p)) =
             Debug (''Voice state update for guild '' @ s_guild_id d)
               # (if voiceChannelId p \<noteq> c then [PlayerMove p (voiceChannelId p) c] else [])
               @ rest
           \<and> (\<forall>a \<in> set rest. \<not> isPlayerMove a)
           \<and> forwards rest = forwards (performed (handleVoiceStateUpdate fw d (Some p)))"
  using assms
  by (simp add: performed_def handleVoiceStateUpdate_def forwardVoiceState_credential Let_def
      split: option.splits)

theorem playerMove_before_forward_witness:
  "\<exists>rest.
     performed (handleVoiceStateUpdate
        \<lparr>voiceStates = [''g1'' \<mapsto> \<lparr>guildId = ''g1'', channelId = Some ''c1'',
                                     sessionId = Some ''s1'', token = Some ''t1'',
                                     endpoint = Some ''e1''\<rparr>],
         clientId = ''bot''\<rparr>
        \<lparr>s_guild_id = ''g1'', s_user_id = ''bot'', s_session_id = ''s2'', s_channel_id = Some ''c2''\<rparr>
        (Some \<lparr>player_guildId = ''g1'', voiceChannelId = ''c1'', node = ''n1''\<rparr>))
     = [Debug ''Voice state update for guild g1'',
        PlayerMove \<lparr>player_guildId = ''g1'', voiceChannelId = ''c1'', node = ''n1''\<rparr> ''c1'' ''c2'']
       @ rest
     \<and> (\<forall>a \<in> set rest. \<not> isPlayerMove a)"
  using playerMove_before_forward
    [of "\<lparr>s_guild_id = ''g1'', s_user_id = ''bot'', s_session_id = ''s2'', s_channel_id = Some ''c2''\<rparr>"
        "\<lparr>voiceStates = [''g1'' \<mapsto> \<lparr>guildId = ''g1'', channelId = Some ''c1'',
                                      sessionId = Some ''s1'', token = Some ''t1'',
                                      endpoint = Some ''e1''\<rparr>],
          clientId = ''bot''\<rparr>"
        "''c2''"
        "\<lparr>player_guildId = ''g1'', voiceChannelId = ''c1'', node = ''n1''\<rparr>"]
  by auto

section \<open>Properties of the backoff policy\<close>

subsection \<open>Rounding\<close>

lemma MAX_VALUE_pos: "0 < MAX_VALUE"
  by (simp add: MAX_VALUE_def)

lemma rounding_mono: "rounding fl \<Longrightarrow> x \<le> y \<Longrightarrow> fl x \<le> fl y"
  by (simp add: rounding_def)

lemma rounding_idem: "rounding fl \<Longrightarrow> fl (fl x) = fl x"
  by (simp add: rounding_def)

lemma rounding_neg: "rounding fl \<Longrightarrow> fl (- x) = - fl x"
  by (simp add: rounding_def)

lemma rounding_zero: "rounding fl \<Longrightarrow> fl 0 = 0"
proof -
  assume "rounding fl"
  then have "fl (- 0) = - fl 0" unfolding rounding_def by blast
  then show "fl 0 = 0" by simp
qed

lemma rounding_double: "rounding fl \<Longrightarrow> fl x = x \<Longrightarrow> fl (2 * x) = 2 * x"
  by (simp add: rounding_def)

lemma rounding_exact: "rounding (\<lambda>x. x)"
  by (simp add: rounding_def)

lemma js_round_finite:
  "- MAX_VALUE \<le> fl x \<Longrightarrow> fl x \<le> MAX_VALUE \<Longrightarrow> js_round fl x = Num (fl x)"
  by (simp add: js_round_def)

text \<open>A real between two doubles rounds to a double between them, and does not overflow.\<close>

lemma js_round_between:
  assumes "rounding fl" and "fl lo = lo" and "fl hi = hi" and "lo \<le> x" and "x \<le> hi"
    and "- MAX_VALUE \<le> lo" and "hi \<le> MAX_VALUE"
  shows "js_round fl x = Num (fl x) \<and> lo \<le> fl x \<and> fl x \<le> hi"
proof -
  have b: "lo \<le> fl x \<and> fl x \<le> hi"
    using rounding_mono[OF assms(1) assms(4)] rounding_mono[OF assms(1) assms(5)] assms(2,3)
    by simp
  then have "js_round fl x = Num (fl x)" using assms(6,7) by (intro js_round_finite) auto
  with b show ?thesis by simp
qed

subsection \<open>Auxiliary facts\<close>

text \<open>
  The capped delay for a finite, non-negative base delay and maximum: the rounded product
  capped at the maximum, and the maximum itself once the power or the product overflows.
  It is a double between zero and the maximum.
\<close>

lemma cappedDelay_value:
  assumes R: "rounding fl" and "0 \<le> bd" and "0 < bd \<or> n < 1024" and "0 \<le> md"
  shows "Math_min (js_mul fl (Num bd) (Math_pow_2 n)) (Num md)
           = Num (if 1024 \<le> n \<or> MAX_VALUE < fl (bd * 2 ^ n) then md
                  else min (fl (bd * 2 ^ n)) md)"
proof (cases "n < 1024")
  case False
  then have "0 < bd" using assms(3) by simp
  then show ?thesis using False
    by (simp add: Math_pow_2_def Math_min_def)
next
  case True
  have "0 \<le> bd * 2 ^ n" using assms(2) by simp
  then have nn: "0 \<le> fl (bd * 2 ^ n)"
    using rounding_mono[OF R, of 0 "bd * 2 ^ n"] rounding_zero[OF R] by simp
  show ?thesis
  proof (cases "MAX_VALUE < fl (bd * 2 ^ n)")
    case True
    then show ?thesis using \<open>n < 1024\<close>
      by (simp add: Math_pow_2_def Math_min_def js_round_def)
  next
    case False
    then have "js_round fl (bd * 2 ^ n) = Num (fl (bd * 2 ^ n))"
      using nn MAX_VALUE_pos by (intro js_round_finite) auto
    then show ?thesis using False \<open>n < 1024\<close>
      by (auto simp: Math_pow_2_def Math_min_def min_def)
  qed
qed

lemma cappedDelay_range:
  assumes R: "rounding fl" and "0 \<le> bd" and "0 \<le> md" and "fl md = md"
    and "d = (if 1024 \<le> n \<or> MAX_VALUE < fl (bd * 2 ^ n) then md
              else min (fl (bd * 2 ^ n)) md)"
  shows "0 \<le> d \<and> d \<le> md \<and> fl d = d"
proof -
  have "0 \<le> bd * 2 ^ n" using assms(2) by simp
  then have nn: "0 \<le> fl (bd * 2 ^ n)"
    using rounding_mono[OF R, of 0 "bd * 2 ^ n"] rounding_zero[OF R] by simp
  show ?thesis using nn assms(3,4,5) rounding_idem[OF R]
    by (auto simp: min_def)
qed

text \<open>
  Past the overflow of the power, a base delay of zero gives \<open>0 * Infinity\<close>, and
  \<open>next\<close> returns NaN.
\<close>

lemma next_NaN_after_overflow:
  "ExponentialBackoff_next (\<lambda>x. x)
     \<lparr>attempt = 1024,
      options = \<lparr>baseDelay = Num 0, maxDelay = Num 60000, maxAttempts = 0,
                 jitter = Num (1 / 4)\<rparr>\<rparr> (1 / 2)
   = Inr (NaN, \<lparr>attempt = 1025,
                options = \<lparr>baseDelay = Num 0, maxDelay = Num 60000, maxAttempts = 0,
                           jitter = Num (1 / 4)\<rparr>\<rparr>)"
  by (simp add: ExponentialBackoff_next_def Let_def Math_pow_2_def Math_min_def
      Math_max_def js_sub_def)

lemma next_succeeds:
  assumes "\<not> hasReachedMaxAttempts b"
  shows "\<exists>delay. ExponentialBackoff_next fl b random
                   = Inr (delay, b\<lparr>attempt := attempt b + 1\<rparr>)"
  using assms by (simp add: hasReachedMaxAttempts_def ExponentialBackoff_next_def Let_def)

lemma next_exhausted:
  "0 < maxAttempts (options b) \<Longrightarrow> maxAttempts (options b) \<le> int (attempt b) \<Longrightarrow>
   ExponentialBackoff_next fl b r = Inl (JsError ''Maximum reconnection attempts reached'')"
  by (simp add: ExponentialBackoff_next_def)

lemma nexts_succeed:
  "maxAttempts (options b) \<le> 0
     \<or> int (attempt b) + int (length rs) \<le> maxAttempts (options b) \<Longrightarrow>
   \<exists>ds. nexts fl b rs = Inr (ds, b\<lparr>attempt := attempt b + length rs\<rparr>)
        \<and> length ds = length rs"
proof (induction rs arbitrary: b)
  case Nil
  then show ?case by simp
next
  case (Cons r rs)
  let ?b' = "b\<lparr>attempt := attempt b + 1\<rparr>"
  have nr: "\<not> hasReachedMaxAttempts b"
    using Cons.prems by (auto simp: hasReachedMaxAttempts_def)
  then obtain d where d: "ExponentialBackoff_next fl b r = Inr (d, ?b')"
    using next_succeeds by blast
  have "maxAttempts (options ?b') \<le> 0
        \<or> int (attempt ?b') + int (length rs) \<le> maxAttempts (options ?b')"
    using Cons.prems by auto
  from Cons.IH[OF this] obtain ds where
    ds: "nexts fl ?b' rs = Inr (ds, ?b'\<lparr>attempt := attempt ?b' + length rs\<rparr>)"
        "length ds = length rs"
    by blast
  show ?case using d ds by simp
qed

lemma reset_fresh: "reset b = \<lparr>attempt = 0, options = options b\<rparr>"
  by (cases b) (simp add: reset_def)

text \<open>
  The loop of \<open>withBackoff\<close> on a backoff with a positive bound \<open>m\<close> and \<open>k\<close> attempts
  left, after \<open>c\<close> invocations of \<open>fn\<close>: it ends after at most \<open>k\<close> further invocations,
  with the first success among them or, when all \<open>k\<close> fail, with the last failure.
\<close>

lemma withBackoff_loop_run:
  fixes fn :: "nat \<Rightarrow> js_thrown + 'a"
  assumes "maxAttempts (options b) = int m" and "0 < m" and "attempt b + k = m"
  shows "\<exists>res n. withBackoff_loop fl fn rnd b c le = Some (res, c + n) \<and> n \<le> k
          \<and> (\<forall>v. res = Inr v \<longrightarrow>
                 0 < n \<and> fn (c + n - 1) = Inr v \<and> (\<forall>i<n - 1. isl (fn (c + i))))
          \<and> (\<forall>e. res = Inl e \<longrightarrow> n = k \<and> (\<forall>i<k. isl (fn (c + i)))
                   \<and> e = (if k = 0
                           then (case le of Some e' \<Rightarrow> e'
                                 | None \<Rightarrow> JsError ''Backoff failed with unknown error'')
                           else toError (projl (fn (c + k - 1)))))"
  using assms
proof (induction k arbitrary: b c le)
  case 0
  then have "hasReachedMaxAttempts b" by (simp add: hasReachedMaxAttempts_def)
  then have "withBackoff_loop fl fn rnd b c le =
      Some (Inl (case le of Some e' \<Rightarrow> e'
                 | None \<Rightarrow> JsError ''Backoff failed with unknown error''), c)"
    by (subst withBackoff_loop.simps) simp
  then show ?case by simp
next
  case (Suc k)
  then have nr: "\<not> hasReachedMaxAttempts b" by (auto simp: hasReachedMaxAttempts_def)
  show ?case
  proof (cases "fn c")
    case (Inr v)
    then have "withBackoff_loop fl fn rnd b c le = Some (Inr v, c + 1)"
      using nr by (subst withBackoff_loop.simps) simp
    then show ?thesis using Inr by (intro exI[of _ "Inr v"] exI[of _ 1]) simp
  next
    case (Inl err)
    let ?b' = "b\<lparr>attempt := attempt b + 1\<rparr>"
    obtain d where d: "ExponentialBackoff_next fl b (rnd c) = Inr (d, ?b')"
      using next_succeeds[OF nr] by blast
    have step: "withBackoff_loop fl fn rnd b c le
                  = withBackoff_loop fl fn rnd ?b' (Suc c) (Some (toError err))"
      using nr Inl d by (subst withBackoff_loop.simps) simp
    have "maxAttempts (options ?b') = int m" "attempt ?b' + k = m"
      using Suc.prems by simp_all
    from Suc.IH[OF this(1) Suc.prems(2) this(2), of "Suc c" "Some (toError err)"]
    obtain res n where
      r: "withBackoff_loop fl fn rnd ?b' (Suc c) (Some (toError err)) = Some (res, Suc c + n)"
         "n \<le> k"
         "\<forall>v. res = Inr v \<longrightarrow>
            0 < n \<and> fn (Suc c + n - 1) = Inr v \<and> (\<forall>i<n - 1. isl (fn (Suc c + i)))"
         "\<forall>e. res = Inl e \<longrightarrow> n = k \<and> (\<forall>i<k. isl (fn (Suc c + i)))
            \<and> e = (if k = 0
                    then (case Some (toError err) of Some e' \<Rightarrow> e'
                          | None \<Rightarrow> JsError ''Backoff failed with unknown error'')
                    else toError (projl (fn (Suc c + k - 1))))"
      by blast
    have shift: "\<And>j. (\<forall>i<j. isl (fn (Suc c + i))) \<Longrightarrow> (\<forall>i<Suc j. isl (fn (c + i)))"
    proof (intro allI impI)
      fix j i assume a: "\<forall>i<j. isl (fn (Suc c + i))" and i: "i < Suc j"
      show "isl (fn (c + i))"
      proof (cases i)
        case 0 then show ?thesis using Inl by simp
      next
        case (Suc i') then show ?thesis using a i by simp
      qed
    qed
    show ?thesis
    proof (cases res)
      case (Inr v)
      then have "0 < n" "fn (c + Suc n - 1) = Inr v" "\<forall>i<n - 1. isl (fn (Suc c + i))"
        using r(3) by simp_all
      moreover have "\<forall>i<Suc n - 1. isl (fn (c + i))"
        using shift[of "n - 1"] \<open>0 < n\<close> \<open>\<forall>i<n - 1. isl (fn (Suc c + i))\<close> by simp
      ultimately show ?thesis
        using step r(1,2) Inr by (intro exI[of _ res] exI[of _ "Suc n"]) simp
    next
      case (Inl e)
      then have n: "n = k" and a: "\<forall>i<k. isl (fn (Suc c + i))"
        and e: "e = (if k = 0 then toError err else toError (projl (fn (Suc c + k - 1))))"
        using r(4) by simp_all
      have e': "e = toError (projl (fn (c + Suc k - 1)))"
        using e \<open>fn c = Inl err\<close> by (cases k) simp_all
      show ?thesis
        using step r(1) n shift[OF a] e' Inl by (intro exI[of _ res] exI[of _ "Suc k"]) simp
    qed
  qed
qed

subsection \<open>Claims\<close>

text \<open>
  C3 as stated fails: \<open>next\<close> returns \<open>Math.floor\<close> of the clamped value, so the result
  can lie below the jitter interval without being clamped at zero. With baseDelay 1001,
  jitter 0.5 and a random draw of 0 at attempt 0, the capped delay is 1001, the interval
  is [500.5, 1501.5], and the call returns 500. Every intermediate value of this run is a
  double, so no operation rounds.
\<close>

theorem next_delay_below_jitter_range:
  "ExponentialBackoff_next (\<lambda>x. x)
     \<lparr>attempt = 0,
      options = \<lparr>baseDelay = Num 1001, maxDelay = Num 60000, maxAttempts = 0,
                 jitter = Num (1 / 2)\<rparr>\<rparr> 0
   = Inr (Num 500,
          \<lparr>attempt = 1,
           options = \<lparr>baseDelay = Num 1001, maxDelay = Num 60000, maxAttempts = 0,
                      jitter = Num (1 / 2)\<rparr>\<rparr>)
   \<and> (500 :: real) < min (1001 * 2 ^ 0) 60000 - (1 / 2) * min (1001 * 2 ^ 0) 60000"
  by (simp add: ExponentialBackoff_next_def Let_def Math_pow_2_def Math_min_def
      Math_max_def js_sub_def js_round_def MAX_VALUE_def)

text \<open>
  C3, amended. Let baseDelay, maxDelay and jitter be finite, with baseDelay and maxDelay
  non-negative, maxDelay at most half of \<open>Number.MAX_VALUE\<close> and jitter in [0, 1]; let
  the random draw be in [0, 1); and let either baseDelay be positive or the attempt count
  \<open>n\<close> be below 1024. At such an \<open>n\<close> at which exhaustion is not signalled, \<open>next\<close>
  returns the integer part of \<open>max 0 (d + v)\<close> as computed in double arithmetic, where
  \<open>d\<close> is \<open>min (baseDelay * 2^n) maxDelay\<close> in double arithmetic (that is maxDelay once
  the power or the product overflows) and \<open>v\<close> is at most the rounded \<open>jitter * d\<close> in
  absolute value; the returned delay is an integer between 0 and
  \<open>maxDelay + maxDelay * jitter\<close> as computed in double arithmetic; and the attempt
  counter is incremented by one.
\<close>

theorem next_delay_bounds:
  assumes R: "rounding fl"
    and nr: "\<not> hasReachedMaxAttempts b"
    and cfg: "baseDelay (options b) = Num bd" "maxDelay (options b) = Num md"
             "jitter (options b) = Num j"
    and md: "fl md = md" "0 \<le> md" "2 * md \<le> MAX_VALUE"
    and bd: "0 \<le> bd" "0 < bd \<or> attempt b < 1024"
    and j: "0 \<le> j" "j \<le> 1"
    and r: "0 \<le> random" "random < 1"
  shows "\<exists>d v delay.
           d = (if 1024 \<le> attempt b \<or> MAX_VALUE < fl (bd * 2 ^ attempt b) then md
                else min (fl (bd * 2 ^ attempt b)) md)
         \<and> \<bar>v\<bar> \<le> fl (d * j)
         \<and> ExponentialBackoff_next fl b random
             = Inr (Num (of_int delay), b\<lparr>attempt := attempt b + 1\<rparr>)
         \<and> delay = \<lfloor>max 0 (fl (d + v))\<rfloor>
         \<and> 0 \<le> delay
         \<and> of_int delay \<le> fl (md + fl (md * j))"
proof -
  define d where "d = (if 1024 \<le> attempt b \<or> MAX_VALUE < fl (bd * 2 ^ attempt b) then md
                       else min (fl (bd * 2 ^ attempt b)) md)"
  have cap: "Math_min (js_mul fl (Num bd) (Math_pow_2 (attempt b))) (Num md) = Num d"
    unfolding d_def by (rule cappedDelay_value[OF R bd md(2)])
  have d: "0 \<le> d" "d \<le> md" "fl d = d"
    using cappedDelay_range[OF R bd(1) md(2) md(1) d_def] by simp_all
  have z: "fl 0 = 0" by (rule rounding_zero[OF R])
  have M: "md \<le> MAX_VALUE" "- MAX_VALUE \<le> 0"
    using md(2,3) by simp_all
  have two_md: "fl (2 * md) = 2 * md" by (rule rounding_double[OF R md(1)])
  \<comment> \<open>jitterRange\<close>
  define jr where "jr = fl (d * j)"
  have "0 \<le> d * j" "d * j \<le> d"
    using d(1) j by (simp_all add: mult_left_le)
  from js_round_between[OF R z d(3) this M(2)] d(2) M(1)
  have jr: "js_round fl (d * j) = Num jr" "0 \<le> jr" "jr \<le> d"
    by (simp_all add: jr_def)
  have fjr: "fl jr = jr" unfolding jr_def by (rule rounding_idem[OF R])
  have jrM: "jr \<le> MAX_VALUE" using jr(3) d(2) M(1) by simp
  \<comment> \<open>random * jitterRange\<close>
  define a where "a = fl (random * jr)"
  have "0 \<le> random * jr" "random * jr \<le> jr"
    using r jr(2) by (simp_all add: mult_left_le_one_le)
  from js_round_between[OF R z fjr this M(2) jrM]
  have a: "js_round fl (random * jr) = Num a" "0 \<le> a" "a \<le> jr"
    by (simp_all add: a_def)
  have fa: "fl a = a" unfolding a_def by (rule rounding_idem[OF R])
  \<comment> \<open>times two: exact\<close>
  have f2a: "fl (a * 2) = 2 * a" using rounding_double[OF R fa] by (simp add: mult.commute)
  have "2 * a \<le> MAX_VALUE" using a(3) jr(3) d(2) md(3) by simp
  then have b2: "js_round fl (a * 2) = Num (2 * a)"
    using f2a a(2) M(2) by (simp add: js_round_def)
  \<comment> \<open>jitterValue\<close>
  define v where "v = fl (2 * a - jr)"
  have fnjr: "fl (- jr) = - jr" using rounding_neg[OF R, of jr] fjr by simp
  have "- jr \<le> 2 * a - jr" "2 * a - jr \<le> jr" using a(2,3) by simp_all
  from js_round_between[OF R fnjr fjr this] jrM
  have v: "js_round fl (2 * a - jr) = Num v" "- jr \<le> v" "v \<le> jr"
    by (simp_all add: v_def)
  \<comment> \<open>cappedDelay + jitterValue\<close>
  have "0 \<le> d + v" "d + v \<le> 2 * md" using v(2,3) jr(3) d(2) by simp_all
  from js_round_between[OF R z two_md this M(2) md(3)]
  have s: "js_round fl (d + v) = Num (fl (d + v))" "0 \<le> fl (d + v)"
    by simp_all
  have eq: "ExponentialBackoff_next fl b random
              = Inr (Num (of_int \<lfloor>max 0 (fl (d + v))\<rfloor>), b\<lparr>attempt := attempt b + 1\<rparr>)"
  proof -
    have m: "Math_max (Num 0) (Num (fl (d + v))) = Num (max 0 (fl (d + v)))"
      using s(2) by (simp add: Math_max_def max_def)
    show ?thesis
      using nr
      by (simp add: hasReachedMaxAttempts_def ExponentialBackoff_next_def Let_def cfg cap
          jr(1) a(1) b2 js_sub_def v(1) s(1) m)
  qed
  have absv: "\<bar>v\<bar> \<le> fl (d * j)" using v(2,3) by (simp add: jr_def abs_le_iff)
  have "jr \<le> fl (md * j)"
    unfolding jr_def using d(2) j(1) by (intro rounding_mono[OF R] mult_right_mono)
  then have "d + v \<le> md + fl (md * j)" using v(3) d(2) by simp
  then have le: "fl (d + v) \<le> fl (md + fl (md * j))" by (rule rounding_mono[OF R])
  have mx: "max 0 (fl (d + v)) = fl (d + v)" using s(2) by simp
  have "of_int \<lfloor>max 0 (fl (d + v))\<rfloor> \<le> max 0 (fl (d + v))" by (rule of_int_floor_le)
  with le mx have up: "of_int \<lfloor>max 0 (fl (d + v))\<rfloor> \<le> fl (md + fl (md * j))"
    by linarith
  have nonneg: "0 \<le> \<lfloor>max 0 (fl (d + v))\<rfloor>" by simp
  show ?thesis
    using absv eq up nonneg unfolding d_def by blast
qed

theorem next_delay_bounds_witness:
  "rounding (\<lambda>x. x)
   \<and> \<not> hasReachedMaxAttempts
       \<lparr>attempt = 3,
        options = \<lparr>baseDelay = Num 1000, maxDelay = Num 60000, maxAttempts = 5,
                   jitter = Num (1 / 4)\<rparr>\<rparr>
   \<and> (\<exists>delay. ExponentialBackoff_next (\<lambda>x. x)
         \<lparr>attempt = 3,
          options = \<lparr>baseDelay = Num 1000, maxDelay = Num 60000, maxAttempts = 5,
                     jitter = Num (1 / 4)\<rparr>\<rparr>
         (1 / 4)
        = Inr (Num (of_int delay),
               \<lparr>attempt = 4,
                options = \<lparr>baseDelay = Num 1000, maxDelay = Num 60000, maxAttempts = 5,
                           jitter = Num (1 / 4)\<rparr>\<rparr>)
       \<and> 0 \<le> delay \<and> real_of_int delay \<le> 60000 + 60000 * (1 / 4))"
proof -
  let ?b = "\<lparr>attempt = 3,
             options = \<lparr>baseDelay = Num 1000, maxDelay = Num 60000, maxAttempts = 5,
                        jitter = Num (1 / 4)\<rparr>\<rparr>"
  have nr: "\<not> hasReachedMaxAttempts ?b" by (simp add: hasReachedMaxAttempts_def)
  have cfg: "baseDelay (options ?b) = Num 1000" "maxDelay (options ?b) = Num 60000"
    "jitter (options ?b) = Num (1 / 4)" by simp_all
  have md: "(\<lambda>x. x) (60000 :: real) = 60000" "(0 :: real) \<le> 60000" "2 * 60000 \<le> MAX_VALUE"
    by (simp_all add: MAX_VALUE_def)
  have bd: "(0 :: real) \<le> 1000" "(0 :: real) < 1000 \<or> attempt ?b < 1024" by simp_all
  have j: "(0 :: real) \<le> 1 / 4" "(1 / 4 :: real) \<le> 1" by simp_all
  have r: "(0 :: real) \<le> 1 / 4" "(1 / 4 :: real) < 1" by simp_all
  from next_delay_bounds[OF rounding_exact nr cfg md bd j r]
  obtain d v delay where
    res: "ExponentialBackoff_next (\<lambda>x. x) ?b (1 / 4)
            = Inr (Num (of_int delay), ?b\<lparr>attempt := attempt ?b + 1\<rparr>)"
         "0 \<le> delay"
         "real_of_int delay \<le> 60000 + 60000 * (1 / 4)"
    by blast
  have "?b\<lparr>attempt := attempt ?b + 1\<rparr>
          = \<lparr>attempt = 4,
             options = \<lparr>baseDelay = Num 1000, maxDelay = Num 60000, maxAttempts = 5,
                        jitter = Num (1 / 4)\<rparr>\<rparr>" by simp
  with res have "\<exists>delay. ExponentialBackoff_next (\<lambda>x. x) ?b (1 / 4)
        = Inr (Num (of_int delay),
               \<lparr>attempt = 4,
                options = \<lparr>baseDelay = Num 1000, maxDelay = Num 60000, maxAttempts = 5,
                           jitter = Num (1 / 4)\<rparr>\<rparr>)
       \<and> 0 \<le> delay \<and> real_of_int delay \<le> 60000 + 60000 * (1 / 4)"
    by (intro exI[of _ delay]) simp
  with rounding_exact nr show ?thesis by (intro conjI)
qed

text \<open>
  C4. With a positive bound \<open>m\<close>, the first \<open>m\<close> calls of \<open>next\<close> on a backoff whose counter
  is zero succeed, whatever the random draws, and the call after them throws ``Maximum
  reconnection attempts reached''. With a bound of zero no number of calls throws. A new
  object starts at zero, and \<open>reset\<close> puts the counter back to zero and keeps the options,
  so the calls that follow behave as on a new object with these options.
\<close>

theorem backoff_exhaustion_and_reset:
  fixes m :: nat
  shows "(0 < m \<longrightarrow> maxAttempts (options b) = int m \<longrightarrow> attempt b = 0 \<longrightarrow> length rs = m \<longrightarrow>
            (\<exists>ds b'. nexts fl b rs = Inr (ds, b') \<and> length ds = m \<and> attempt b' = m
               \<and> ExponentialBackoff_next fl b' r
                   = Inl (JsError ''Maximum reconnection attempts reached'')))
       \<and> (maxAttempts (options b) = 0 \<longrightarrow>
            (\<exists>ds b'. nexts fl b rs = Inr (ds, b') \<and> length ds = length rs))
       \<and> attempt (new_ExponentialBackoff fl opts) = 0
       \<and> attempt (reset b) = 0 \<and> options (reset b) = options b
       \<and> nexts fl (reset b) rs = nexts fl \<lparr>attempt = 0, options = options b\<rparr> rs"
proof (intro conjI impI)
  assume m: "0 < m" "maxAttempts (options b) = int m" "attempt b = 0" "length rs = m"
  then obtain ds where ds: "nexts fl b rs = Inr (ds, b\<lparr>attempt := attempt b + length rs\<rparr>)"
      "length ds = length rs"
    using nexts_succeed[of b rs fl] by auto
  have "ExponentialBackoff_next fl (b\<lparr>attempt := attempt b + length rs\<rparr>) r
          = Inl (JsError ''Maximum reconnection attempts reached'')"
    using m by (intro next_exhausted) auto
  then show "\<exists>ds b'. nexts fl b rs = Inr (ds, b') \<and> length ds = m \<and> attempt b' = m
               \<and> ExponentialBackoff_next fl b' r
                   = Inl (JsError ''Maximum reconnection attempts reached'')"
    using ds m by auto
next
  assume "maxAttempts (options b) = 0"
  then show "\<exists>ds b'. nexts fl b rs = Inr (ds, b') \<and> length ds = length rs"
    using nexts_succeed[of b rs fl] by auto
next
  show "nexts fl (reset b) rs = nexts fl \<lparr>attempt = 0, options = options b\<rparr> rs"
    by (simp only: reset_fresh)
qed (simp_all add: new_ExponentialBackoff_def reset_def)

theorem backoff_exhaustion_and_reset_witness:
  "\<exists>ds b'. nexts (\<lambda>x. x)
              \<lparr>attempt = 0,
               options = \<lparr>baseDelay = Num 1000, maxDelay = Num 60000, maxAttempts = 2,
                          jitter = Num 0\<rparr>\<rparr>
              [0, 1 / 2] = Inr (ds, b')
     \<and> length ds = 2 \<and> attempt b' = 2
     \<and> ExponentialBackoff_next (\<lambda>x. x) b' 0
         = Inl (JsError ''Maximum reconnection attempts reached'')"
  using backoff_exhaustion_and_reset
    [of 2 "\<lparr>attempt = 0,
            options = \<lparr>baseDelay = Num 1000, maxDelay = Num 60000, maxAttempts = 2,
                       jitter = Num 0\<rparr>\<rparr>"
        "[0, 1 / 2]" "\<lambda>x. x" 0]
  by simp

text \<open>
  C9 as stated fails for a function that rejects with a value that is no \<open>Error\<close>:
  \<open>withBackoff\<close> then throws \<open>new Error(String(value))\<close>, not the value the last
  invocation raised. With \<open>maxAttempts = 2\<close> and a function that always rejects with the
  string v1, the thrown value is an \<open>Error\<close> with message v1.
\<close>

theorem withBackoff_wraps_non_error:
  "withBackoff (\<lambda>x. x) (\<lambda>k. (Inl (JsValue ''v1'') :: js_thrown + nat)) (\<lambda>k. 0)
     \<lparr>opt_baseDelay = None, opt_maxDelay = None, opt_maxAttempts = Some 2,
      opt_jitter = None\<rparr>
   = Some (Inl (JsError ''v1''), 2)
   \<and> JsError ''v1'' \<noteq> JsValue ''v1''"
  by (simp add: withBackoff_def withBackoff_loop.simps new_ExponentialBackoff_def
      hasReachedMaxAttempts_def ExponentialBackoff_next_def Let_def toError_def)

text \<open>
  C9, amended. With \<open>maxAttempts = m > 0\<close>, \<open>withBackoff\<close> returns after at least one and
  at most \<open>m\<close> invocations of \<open>fn\<close>. If it returns a value, that is the result of the last
  invocation made and every earlier invocation failed: it is the first success. If it
  throws, all \<open>m\<close> invocations failed, and the thrown value is the error raised by the last
  invocation when that is an \<open>Error\<close>, and otherwise an \<open>Error\<close> whose message is
  \<open>String\<close> of the value it raised.
\<close>

theorem withBackoff_bounded:
  fixes fn :: "nat \<Rightarrow> js_thrown + 'a"
  assumes "opt_maxAttempts opts = Some (int m)" and "0 < m"
  shows "\<exists>res n. withBackoff fl fn rnd opts = Some (res, n) \<and> 0 < n \<and> n \<le> m
          \<and> (\<forall>v. res = Inr v \<longrightarrow> fn (n - 1) = Inr v \<and> (\<forall>i<n - 1. isl (fn i)))
          \<and> (\<forall>e. res = Inl e \<longrightarrow> n = m \<and> (\<forall>i<m. isl (fn i))
                 \<and> e = toError (projl (fn (m - 1)))
                 \<and> (\<forall>msg. fn (m - 1) = Inl (JsError msg) \<longrightarrow> e = JsError msg)
                 \<and> (\<forall>s. fn (m - 1) = Inl (JsValue s) \<longrightarrow> e = JsError s))"
proof -
  let ?b = "new_ExponentialBackoff fl opts"
  have "maxAttempts (options ?b) = int m" "attempt ?b + m = m"
    using assms(1) by (simp_all add: new_ExponentialBackoff_def)
  from withBackoff_loop_run[OF this(1) assms(2) this(2), of fl fn rnd 0 None]
  obtain res n where r0: "withBackoff_loop fl fn rnd ?b 0 None = Some (res, 0 + n)" "n \<le> m"
     "\<forall>v. res = Inr v \<longrightarrow>
        0 < n \<and> fn (0 + n - 1) = Inr v \<and> (\<forall>i<n - 1. isl (fn (0 + i)))"
     "\<forall>e. res = Inl e \<longrightarrow> n = m \<and> (\<forall>i<m. isl (fn (0 + i)))
        \<and> e = (if m = 0
                then (case None of Some e' \<Rightarrow> e'
                      | None \<Rightarrow> JsError ''Backoff failed with unknown error'')
                else toError (projl (fn (0 + m - 1))))"
    by blast
  have r: "withBackoff_loop fl fn rnd ?b 0 None = Some (res, n)" "n \<le> m"
     "\<forall>v. res = Inr v \<longrightarrow> 0 < n \<and> fn (n - 1) = Inr v \<and> (\<forall>i<n - 1. isl (fn i))"
     "\<forall>e. res = Inl e \<longrightarrow> n = m \<and> (\<forall>i<m. isl (fn i)) \<and> e = toError (projl (fn (m - 1)))"
    using r0 assms(2) by simp_all
  have "0 < n" using r(3,4) assms(2) by (cases res) simp_all
  moreover have "\<forall>e. res = Inl e \<longrightarrow>
       (\<forall>msg. fn (m - 1) = Inl (JsError msg) \<longrightarrow> e = JsError msg)
       \<and> (\<forall>s. fn (m - 1) = Inl (JsValue s) \<longrightarrow> e = JsError s)"
    using r(4) by (auto simp: toError_def)
  ultimately show ?thesis
    using r unfolding withBackoff_def by (intro exI[of _ res] exI[of _ n]) simp
qed

theorem withBackoff_bounded_witness:
  "opt_maxAttempts \<lparr>opt_baseDelay = None, opt_maxDelay = None, opt_maxAttempts = Some 3,
                    opt_jitter = None\<rparr> = Some (int 3)
   \<and> (\<exists>res n.
        withBackoff (\<lambda>x. x)
          (\<lambda>k. if k < 1 then Inl (JsError ''boom'') else Inr (42 :: nat)) (\<lambda>k. 0)
          \<lparr>opt_baseDelay = None, opt_maxDelay = None, opt_maxAttempts = Some 3,
           opt_jitter = None\<rparr>
        = Some (res, n) \<and> 0 < n \<and> n \<le> 3)
   \<and> withBackoff (\<lambda>x. x)
          (\<lambda>k. if k < 1 then Inl (JsError ''boom'') else Inr (42 :: nat)) (\<lambda>k. 0)
          \<lparr>opt_baseDelay = None, opt_maxDelay = None, opt_maxAttempts = Some 3,
           opt_jitter = None\<rparr>
        = Some (Inr 42, 2)"
proof -
  let ?opts = "\<lparr>opt_baseDelay = None, opt_maxDelay = None, opt_maxAttempts = Some 3,
                 opt_jitter = None\<rparr>"
  have h: "opt_maxAttempts ?opts = Some (int 3)" "0 < (3 :: nat)" by simp_all
  have ex: "\<exists>res n.
        withBackoff (\<lambda>x. x)
          (\<lambda>k. if k < 1 then Inl (JsError ''boom'') else Inr (42 :: nat)) (\<lambda>k. 0) ?opts
        = Some (res, n) \<and> 0 < n \<and> n \<le> 3"
    using withBackoff_bounded
      [OF h, of "\<lambda>x. x" "\<lambda>k. if k < 1 then Inl (JsError ''boom'') else Inr (42 :: nat)"
         "\<lambda>k. 0"]
    by (elim exE conjE) (intro exI conjI, assumption+)
  have ev: "withBackoff (\<lambda>x. x)
              (\<lambda>k. if k < 1 then Inl (JsError ''boom'') else Inr (42 :: nat)) (\<lambda>k. 0)
              ?opts = Some (Inr 42, 2)"
    by (simp add: withBackoff_def withBackoff_loop.simps new_ExponentialBackoff_def
        hasReachedMaxAttempts_def ExponentialBackoff_next_def Let_def)
  from h(1) ex ev show ?thesis by (intro conjI)
qed

section \<open>Properties of the HTTP client\<close>

text \<open>
  C7 as stated fails: \<open>request\<close> has no timeout. \<open>RequestOptions\<close> carries no timeout
  or abort signal, none is passed to \<open>fetch\<close>, and no timer races the awaits. When
  \<open>fetch\<close> stays pending, the promise returned by \<open>request\<close> never settles: the caller
  gets neither a result nor a timeout error.
\<close>

theorem request_pending_without_timeout:
  "request (\<lambda>b :: string. b \<noteq> []) (\<lambda>b. b) (\<lambda>init. (Pending :: string Response promise))
     \<lparr>baseUrl = ''http://localhost:2333'',
      headers = [''Authorization'' \<mapsto> ''youshallnotpass'',
                 ''Content-Type'' \<mapsto> ''application/json'']\<rparr>
     \<lparr>req_method = GET, req_endpoint = ''/version'', req_headers = None, req_body = None\<rparr>
   = None"
  by (simp add: request_def)

text \<open>
  C7, amended. A REST send through the HTTP client is bounded only by the \<open>fetch\<close> it
  awaits. For the \<open>fetch\<close> call that \<open>request\<close> makes (base URL followed by the endpoint,
  the method, the client's headers overridden by the caller's, the stringified body if the
  body is truthy): while that call stays pending, \<open>request\<close> stays pending; when it
  rejects with an \<open>Error\<close>, for instance because the \<open>fetch\<close> implementation itself gave
  up, \<open>request\<close> fails with ``Request failed: '' followed by the message, surfaced to the
  caller.
\<close>

theorem request_bounded_by_fetch:
  "(fetch \<lparr>fetch_url = baseUrl client @ req_endpoint opts,
           fetch_method = req_method opts,
           fetch_headers = headers client
              ++ (case req_headers opts of None \<Rightarrow> Map.empty | Some h \<Rightarrow> h),
           fetch_body = (case req_body opts of
                           None \<Rightarrow> None
                         | Some b \<Rightarrow> if js_truthy b then Some (JSON_stringify b) else None)\<rparr>
      = Pending
    \<longrightarrow> request js_truthy JSON_stringify fetch client opts = None)
   \<and> (fetch \<lparr>fetch_url = baseUrl client @ req_endpoint opts,
           fetch_method = req_method opts,
           fetch_headers = headers client
              ++ (case req_headers opts of None \<Rightarrow> Map.empty | Some h \<Rightarrow> h),
           fetch_body = (case req_body opts of
                           None \<Rightarrow> None
                         | Some b \<Rightarrow> if js_truthy b then Some (JSON_stringify b) else None)\<rparr>
      = Rejected (JsError m)
    \<longrightarrow> request js_truthy JSON_stringify fetch client opts
          = Some (Inl (JsError (''Request failed: '' @ m))))"
  by (simp add: request_def requestFailed_def)

theorem request_bounded_by_fetch_witness:
  "request (\<lambda>b :: string. b \<noteq> []) (\<lambda>b. b)
     (\<lambda>init. if fetch_method init = POST
              then (Pending :: string Response promise)
              else Rejected (JsError ''The operation was aborted''))
     \<lparr>baseUrl = ''http://localhost:2333'', headers = [''Authorization'' \<mapsto> ''pw'']\<rparr>
     \<lparr>req_method = POST, req_endpoint = ''/v4/sessions'', req_headers = None,
      req_body = Some ''x''\<rparr>
   = None
   \<and> request (\<lambda>b :: string. b \<noteq> []) (\<lambda>b. b)
     (\<lambda>init. if fetch_method init = POST
              then (Pending :: string Response promise)
              else Rejected (JsError ''The operation was aborted''))
     \<lparr>baseUrl = ''http://localhost:2333'', headers = [''Authorization'' \<mapsto> ''pw'']\<rparr>
     \<lparr>req_method = GET, req_endpoint = ''/version'', req_headers = None, req_body = None\<rparr>
   = Some (Inl (JsError ''Request failed: The operation was aborted''))"
  using request_bounded_by_fetch
    [of "\<lambda>init. if fetch_method init = POST
                then (Pending :: string Response promise)
                else Rejected (JsError ''The operation was aborted'')"
        "\<lparr>baseUrl = ''http://localhost:2333'', headers = [''Authorization'' \<mapsto> ''pw'']\<rparr>"
        "\<lparr>req_method = POST, req_endpoint = ''/v4/sessions'', req_headers = None,
          req_body = Some ''x''\<rparr>"
        "\<lambda>b :: string. b \<noteq> []" "\<lambda>b. b" "''The operation was aborted''"]
    request_bounded_by_fetch
    [of "\<lambda>init. if fetch_method init = POST
                then (Pending :: string Response promise)
                else Rejected (JsError ''The operation was aborted'')"
        "\<lparr>baseUrl = ''http://localhost:2333'', headers = [''Authorization'' \<mapsto> ''pw'']\<rparr>"
        "\<lparr>req_method = GET, req_endpoint = ''/version'', req_headers = None,
          req_body = (None :: string option)\<rparr>"
        "\<lambda>b :: string. b \<noteq> []" "\<lambda>b. b" "''The operation was aborted''"]
  by simp

section \<open>Properties of the filter builder\<close>

text \<open>
  What \<open>equalizer\<close> does on every input: it throws exactly when one of the four
  comparisons is true of some band; then the builder is unchanged; otherwise the builder
  differs only in its stored equalizer, which is the given list.
\<close>

lemma validateBands_None_iff:
  "validateBands bands = None \<longleftrightarrow>
     (\<forall>b \<in> set bands. \<not> js_lt (band b) (Num 0) \<and> \<not> js_gt (band b) (Num 14)
        \<and> \<not> js_lt (gain b) (Num (- 0.25)) \<and> \<not> js_gt (gain b) (Num 1.0))"
  by (induction bands) auto

lemma equalizer_outcome:
  "(snd (equalizer this bands) \<noteq> None \<longleftrightarrow>
      (\<exists>b \<in> set bands. js_lt (band b) (Num 0) \<or> js_gt (band b) (Num 14)
         \<or> js_lt (gain b) (Num (- 0.25)) \<or> js_gt (gain b) (Num 1.0)))
   \<and> (snd (equalizer this bands) \<noteq> None \<longrightarrow> fst (equalizer this bands) = this)
   \<and> (snd (equalizer this bands) = None \<longrightarrow>
        fst (equalizer this bands)
          = this\<lparr>filters := (filters this)\<lparr>equalizer_bands := Some bands\<rparr>\<rparr>)"
proof -
  have "validateBands bands \<noteq> None \<longleftrightarrow>
      (\<exists>b \<in> set bands. js_lt (band b) (Num 0) \<or> js_gt (band b) (Num 14)
         \<or> js_lt (gain b) (Num (- 0.25)) \<or> js_gt (gain b) (Num 1.0))"
    unfolding validateBands_None_iff by auto
  then show ?thesis
    by (cases "validateBands bands") (simp_all add: equalizer_def)
qed

text \<open>
  C10. The claim is that \<open>equalizer(bands)\<close> throws if and only if some band has an index
  outside [0, 14] or a gain outside [-0.25, 1.0]. A gain of NaN is in no interval, but
  every comparison with NaN is false: \<open>equalizer\<close> does not throw on a band whose gain is
  NaN and stores it.
\<close>

theorem equalizer_accepts_NaN_gain:
  "equalizer
     \<lparr>filters = \<lparr>equalizer_bands = None\<rparr>,
      builder_player = \<lparr>player_guildId = ''g1'', voiceChannelId = ''c1'', node = ''n1''\<rparr>\<rparr>
     [\<lparr>band = Num 0, gain = NaN\<rparr>]
   = (\<lparr>filters = \<lparr>equalizer_bands = Some [\<lparr>band = Num 0, gain = NaN\<rparr>]\<rparr>,
       builder_player = \<lparr>player_guildId = ''g1'', voiceChannelId = ''c1'', node = ''n1''\<rparr>\<rparr>,
      None)"
  by (simp add: equalizer_def js_gt_def)

end
